theory Spec2Isabelle
  imports Complex_Main "HOL-Library.Sublist" "HOL-Library.Multiset"
begin

section \<open>JavaScript strings and numbers\<close>

text \<open>
  Strings are lists of characters. The three characters that cannot be written
  inside a string literal get names.
\<close>

abbreviation squote :: char where "squote \<equiv> CHR 0x27"
abbreviation bslash :: char where "bslash \<equiv> CHR 0x5C"
abbreviation newline :: char where "newline \<equiv> CHR 0x0A"

text \<open>\<open>String(n)\<close> and \<open>`${n}`\<close> for an integral number \<open>n\<close>: its decimal digits.\<close>

fun string_of_nat :: "nat \<Rightarrow> string" where
  "string_of_nat n =
     (if n < 10 then [''0123456789'' ! n]
      else string_of_nat (n div 10) @ [''0123456789'' ! (n mod 10)])"

declare string_of_nat.simps [simp del]

definition string_of_int :: "int \<Rightarrow> string" where
  "string_of_int i = (if i < 0 then CHR ''-'' # string_of_nat (nat (- i)) else string_of_nat (nat i))"

text \<open>
  \<open>String.prototype.toLowerCase\<close> on the ASCII letters; the strings it is compared
  with in this program are ASCII.
\<close>

definition lower_char :: "char \<Rightarrow> char" where
  "lower_char c =
     (if (65::nat) \<le> of_char c \<and> of_char c \<le> (90::nat)
      then char_of (of_char c + (32::nat)) else c)"

definition toLowerCase :: "string \<Rightarrow> string" where
  "toLowerCase s = map lower_char s"

section \<open>Component group: layout class and layout style\<close>

text \<open>
  \<open>hmConfigurableComponentGroup.js\<close>. The group configuration arrives from the
  server or is \<open>null\<close>; \<open>layoutType\<close> and \<open>componentsPerRow\<close> may be missing.
\<close>

record group_config =
  layoutType :: "string option"
  componentsPerRow :: "int option"

definition LAYOUT_HORIZONTAL :: string where "LAYOUT_HORIZONTAL = ''hm-group-layout-horizontal''"
definition LAYOUT_VERTICAL :: string where "LAYOUT_VERTICAL = ''hm-group-layout-vertical''"
definition LAYOUT_GRID :: string where "LAYOUT_GRID = ''hm-group-layout-grid''"
definition DEFAULT_LAYOUT :: string where "DEFAULT_LAYOUT = ''Horizontal''"

text \<open>\<open>x || d\<close> on a string that may be missing: the empty string is falsy too.\<close>

definition str_or :: "string option \<Rightarrow> string \<Rightarrow> string" where
  "str_or x d = (case x of None \<Rightarrow> d | Some s \<Rightarrow> if s = [] then d else s)"

definition layoutClass :: "group_config option \<Rightarrow> string" where
  "layoutClass groupConfig =
     (case groupConfig of
        None \<Rightarrow> LAYOUT_HORIZONTAL
      | Some cfg \<Rightarrow>
          (let layoutTypeLower = toLowerCase (str_or (layoutType cfg) DEFAULT_LAYOUT)
           in if layoutTypeLower = toLowerCase ''Vertical'' then LAYOUT_VERTICAL
              else if layoutTypeLower = toLowerCase ''Grid'' then LAYOUT_GRID
              else LAYOUT_HORIZONTAL))"

definition componentsPerRow_get :: "group_config option \<Rightarrow> int option" where
  "componentsPerRow_get groupConfig =
     (case groupConfig of None \<Rightarrow> None | Some cfg \<Rightarrow> componentsPerRow cfg)"

definition layoutStyle :: "group_config option \<Rightarrow> string" where
  "layoutStyle groupConfig =
     (case componentsPerRow_get groupConfig of
        None \<Rightarrow> []
      | Some n \<Rightarrow> if n \<noteq> 0 then ''--components-per-row: '' @ string_of_int n @ '';'' else [])"

text \<open>In the words of the specification: a configured layout type that equals a name up to case.\<close>

definition layout_is :: "group_config option \<Rightarrow> string \<Rightarrow> bool" where
  "layout_is groupConfig name =
     (case groupConfig of
        None \<Rightarrow> False
      | Some cfg \<Rightarrow>
          (case layoutType cfg of
             None \<Rightarrow> False
           | Some t \<Rightarrow> toLowerCase t = toLowerCase name))"


section \<open>Query builder: SOQL generation\<close>

text \<open>
  \<open>HM_DataSourceQueryBuilder\<close>. A WHERE condition is an object of strings; its
  \<open>value\<close> comes from an input and may also be \<open>null\<close> or \<open>undefined\<close>.
\<close>

datatype cond_value = VNull | VUndefined | VStr string

record condition =
  cond_id :: string
  fieldApiName :: string
  fieldLabel :: string
  fieldType :: string
  operator :: string
  cvalue :: cond_value
  conjunction :: string

text \<open>
  The operator of a condition is one of the option values of the operator list or
  empty; \<open>OPERATOR_MAP[operator] || "="\<close> is a lookup in the table with \<open>=\<close> for a
  name that is not in it. A value inside a template literal, \<open>`${condition.value}`\<close>:
\<close>

definition tmpl :: "cond_value \<Rightarrow> string" where
  "tmpl v = (case v of VNull \<Rightarrow> ''null'' | VUndefined \<Rightarrow> ''undefined'' | VStr s \<Rightarrow> s)"

definition OPERATOR_MAP :: "(string \<times> string) list" where
  "OPERATOR_MAP =
     [(''equals'', ''=''), (''not_equals'', ''!=''), (''contains'', ''LIKE''),
      (''starts_with'', ''LIKE''), (''ends_with'', ''LIKE''), (''less_than'', ''<''),
      (''greater_than'', ''>''), (''less_or_equal'', ''<=''), (''greater_or_equal'', ''>=''),
      (''is_null'', ''=''), (''is_not_null'', ''!=''), (''includes'', ''INCLUDES''),
      (''excludes'', ''EXCLUDES''), (''date_today'', ''=''), (''date_this_week'', ''=''),
      (''date_this_month'', ''=''), (''date_this_year'', ''=''), (''date_last_n_days'', ''=''),
      (''date_next_n_days'', ''='')]"

text \<open>\<open>s.replace(/c/g, r)\<close> for a single character \<open>c\<close> and a literal replacement.\<close>

definition replace_char :: "char \<Rightarrow> string \<Rightarrow> string \<Rightarrow> string" where
  "replace_char c r s = concat (map (\<lambda>x. if x = c then r else [x]) s)"

definition escapeSoqlValue :: "cond_value \<Rightarrow> string" where
  "escapeSoqlValue v =
     (case v of
        VNull \<Rightarrow> []
      | VUndefined \<Rightarrow> []
      | VStr s \<Rightarrow> replace_char squote [bslash, squote] (replace_char bslash [bslash, bslash] s))"

definition is_digit :: "char \<Rightarrow> bool" where
  "is_digit c \<longleftrightarrow> (48::nat) \<le> of_char c \<and> of_char c \<le> (57::nat)"

text \<open>The regular expression \<open>/^\d{4}-\d{2}-\d{2}/\<close>: a test on the first ten characters.\<close>

definition date_prefix :: "string \<Rightarrow> bool" where
  "date_prefix s \<longleftrightarrow>
     10 \<le> length s \<and> list_all is_digit (take 4 s) \<and> s ! 4 = CHR ''-'' \<and>
     list_all is_digit (take 2 (drop 5 s)) \<and> s ! 7 = CHR ''-'' \<and>
     list_all is_digit (take 2 (drop 8 s))"

text \<open>
  \<open>isValidDateFormat\<close>: the trimmed value is a date literal (any case), a date
  \<open>YYYY-MM-DD\<close>, or a date-time \<open>YYYY-MM-DDThh:mm:ss\<close> with optional milliseconds and
  optional \<open>Z\<close>.
\<close>

definition is_space :: "char \<Rightarrow> bool" where
  "is_space c \<longleftrightarrow> of_char c \<in> {9::nat, 10, 11, 12, 13, 32, 160}"

definition trim :: "string \<Rightarrow> string" where
  "trim s = rev (dropWhile is_space (rev (dropWhile is_space s)))"

definition upper_char :: "char \<Rightarrow> char" where
  "upper_char c =
     (if (97::nat) \<le> of_char c \<and> of_char c \<le> (122::nat)
      then char_of (of_char c - (32::nat)) else c)"

definition DATE_LITERALS :: "string list" where
  "DATE_LITERALS =
     [''TODAY'', ''YESTERDAY'', ''TOMORROW'', ''LAST_WEEK'', ''THIS_WEEK'', ''NEXT_WEEK'',
      ''LAST_MONTH'', ''THIS_MONTH'', ''NEXT_MONTH'', ''LAST_90_DAYS'', ''NEXT_90_DAYS'',
      ''THIS_QUARTER'', ''LAST_QUARTER'', ''NEXT_QUARTER'', ''THIS_YEAR'', ''LAST_YEAR'',
      ''NEXT_YEAR'', ''THIS_FISCAL_QUARTER'', ''LAST_FISCAL_QUARTER'', ''NEXT_FISCAL_QUARTER'',
      ''THIS_FISCAL_YEAR'', ''LAST_FISCAL_YEAR'', ''NEXT_FISCAL_YEAR'']"

definition n_days_literal :: "string \<Rightarrow> string \<Rightarrow> bool" where
  "n_days_literal name u \<longleftrightarrow>
     take (length name) u = name \<and> drop (length name) u \<noteq> [] \<and>
     list_all is_digit (drop (length name) u)"

definition dateLiteralPattern :: "string \<Rightarrow> bool" where
  "dateLiteralPattern s \<longleftrightarrow>
     (let u = map upper_char s
      in u \<in> set DATE_LITERALS \<or> n_days_literal ''LAST_N_DAYS:'' u \<or>
         n_days_literal ''NEXT_N_DAYS:'' u)"

definition datePattern :: "string \<Rightarrow> bool" where
  "datePattern s \<longleftrightarrow> length s = 10 \<and> date_prefix s"

definition time_part :: "string \<Rightarrow> bool" where
  "time_part t \<longleftrightarrow>
     length t = 9 \<and> t ! 0 = CHR ''T'' \<and> list_all is_digit (take 2 (drop 1 t)) \<and>
     t ! 3 = CHR '':'' \<and> list_all is_digit (take 2 (drop 4 t)) \<and> t ! 6 = CHR '':'' \<and>
     list_all is_digit (take 2 (drop 7 t))"

definition millis_part :: "string \<Rightarrow> bool" where
  "millis_part m \<longleftrightarrow> m = [] \<or> (length m = 4 \<and> hd m = CHR ''.'' \<and> list_all is_digit (tl m))"

definition datetimePattern :: "string \<Rightarrow> bool" where
  "datetimePattern s \<longleftrightarrow>
     date_prefix s \<and>
     (let r = drop 10 s; r' = (if r \<noteq> [] \<and> last r = CHR ''Z'' then butlast r else r)
      in (time_part (take 9 r) \<and> millis_part (drop 9 r)) \<or>
         (time_part (take 9 r') \<and> millis_part (drop 9 r')))"

definition isValidDateFormat :: "cond_value \<Rightarrow> bool" where
  "isValidDateFormat v =
     (case v of
        VNull \<Rightarrow> False
      | VUndefined \<Rightarrow> False
      | VStr s \<Rightarrow>
          if s = [] then False
          else (let trimmed = trim s
                in if dateLiteralPattern trimmed then True
                   else if datePattern trimmed then True
                   else if datetimePattern trimmed then True
                   else False))"

definition value_truthy :: "cond_value \<Rightarrow> bool" where
  "value_truthy v = (case v of VStr s \<Rightarrow> s \<noteq> [] | _ \<Rightarrow> False)"

definition value_matches_date :: "cond_value \<Rightarrow> bool" where
  "value_matches_date v = (case v of VStr s \<Rightarrow> date_prefix s | _ \<Rightarrow> False)"

definition numericTypes :: "string list" where
  "numericTypes = [''INTEGER'', ''DOUBLE'', ''CURRENCY'', ''PERCENT'']"

definition dateTypes :: "string list" where
  "dateTypes = [''DATE'', ''DATETIME'']"

definition buildConditionClause :: "condition \<Rightarrow> string" where
  "buildConditionClause c =
     (let op = str_or (map_of OPERATOR_MAP (operator c)) ''='';
          field = fieldApiName c
      in if operator c = ''is_null'' then field @ '' = null''
         else if operator c = ''is_not_null'' then field @ '' != null''
         else if operator c = ''date_today'' then field @ '' = TODAY''
         else if operator c = ''date_this_week'' then field @ '' = THIS_WEEK''
         else if operator c = ''date_this_month'' then field @ '' = THIS_MONTH''
         else if operator c = ''date_this_year'' then field @ '' = THIS_YEAR''
         else if operator c = ''date_last_n_days'' then field @ '' = LAST_N_DAYS:'' @ tmpl (cvalue c)
         else if operator c = ''date_next_n_days'' then field @ '' = NEXT_N_DAYS:'' @ tmpl (cvalue c)
         else if operator c = ''date_gt_today'' then field @ '' > TODAY''
         else if operator c = ''date_lt_today'' then field @ '' < TODAY''
         else if operator c = ''date_gt_last_n_days'' then field @ '' > LAST_N_DAYS:'' @ tmpl (cvalue c)
         else if operator c = ''date_lt_next_n_days'' then field @ '' < NEXT_N_DAYS:'' @ tmpl (cvalue c)
         else if operator c = ''contains''
           then field @ '' LIKE '' @ [squote] @ ''%'' @ escapeSoqlValue (cvalue c) @ ''%'' @ [squote]
         else if operator c = ''starts_with''
           then field @ '' LIKE '' @ [squote] @ escapeSoqlValue (cvalue c) @ ''%'' @ [squote]
         else if operator c = ''ends_with''
           then field @ '' LIKE '' @ [squote] @ ''%'' @ escapeSoqlValue (cvalue c) @ [squote]
         else if cvalue c = VStr ''{!UserId}'' then field @ '' '' @ op @ '' :UserInfo.getUserId()''
         else if fieldType c = ''BOOLEAN'' then field @ '' '' @ op @ '' '' @ tmpl (cvalue c)
         else if fieldType c \<in> set numericTypes then field @ '' '' @ op @ '' '' @ tmpl (cvalue c)
         else if fieldType c \<in> set dateTypes
           then (if isValidDateFormat (cvalue c) then field @ '' '' @ op @ '' '' @ tmpl (cvalue c)
                 else field @ '' '' @ op @ '' '' @ tmpl (cvalue c))
         else if operator c = ''includes'' \<or> operator c = ''excludes''
           then field @ '' '' @ op @ '' ('' @ [squote] @ escapeSoqlValue (cvalue c) @ [squote] @ '')''
         else if value_truthy (cvalue c) \<and> value_matches_date (cvalue c)
           then field @ '' '' @ op @ '' '' @ tmpl (cvalue c)
         else field @ '' '' @ op @ '' '' @ [squote] @ escapeSoqlValue (cvalue c) @ [squote])"

text \<open>
  \<open>buildWhereClause\<close>. The \<open>forEach\<close> of the mixed case is a loop over the valid
  conditions from the second one on, carrying \<open>result\<close> and \<open>inOrGroup\<close>; \<open>nextIsOr\<close>
  looks at the condition after the current one.
\<close>

definition valid_condition :: "condition \<Rightarrow> bool" where
  "valid_condition c \<longleftrightarrow> fieldApiName c \<noteq> [] \<and> operator c \<noteq> []"

definition and_sep :: string where "and_sep = newline # ''    AND ''"
definition and_open :: string where "and_open = newline # ''    AND (''"
definition or_sep :: string where "or_sep = newline # ''         OR ''"

fun where_loop :: "string \<Rightarrow> bool \<Rightarrow> condition list \<Rightarrow> string \<times> bool" where
  "where_loop result inOrGroup [] = (result, inOrGroup)"
| "where_loop result inOrGroup (c # rest) =
     (let clause = buildConditionClause c;
          isOr = (conjunction c = ''OR'');
          nextIsOr = (case rest of [] \<Rightarrow> False | n # _ \<Rightarrow> conjunction n = ''OR'')
      in if isOr then
           (let result1 = (if \<not> inOrGroup then result @ and_open @ clause
                           else result @ or_sep @ clause);
                inOrGroup1 = (if \<not> inOrGroup then True else inOrGroup)
            in if \<not> nextIsOr \<and> inOrGroup1 then where_loop (result1 @ '')'') False rest
               else where_loop result1 inOrGroup1 rest)
         else where_loop (result @ and_sep @ clause) inOrGroup rest)"

definition simple_join :: "condition list \<Rightarrow> string" where
  "simple_join cs =
     (case cs of
        [] \<Rightarrow> []
      | c # rest \<Rightarrow>
          buildConditionClause c @
          concat (map (\<lambda>d. newline # ''    '' @ conjunction d @ '' '' @ buildConditionClause d) rest))"

definition buildWhereClause_of :: "condition list \<Rightarrow> string" where
  "buildWhereClause_of whereConds =
     (let validConditions = filter valid_condition whereConds
      in case validConditions of
           [] \<Rightarrow> []
         | c # rest \<Rightarrow>
             (let hasOr = (\<exists>d \<in> set rest. conjunction d = ''OR'');
                  hasAnd = (\<exists>d \<in> set rest. conjunction d = ''AND'');
                  hasMixedConjunctions = (hasOr \<and> hasAnd)
              in if \<not> hasMixedConjunctions then simple_join validConditions
                 else (case where_loop (buildConditionClause c) False rest of
                         (result, inOrGroup) \<Rightarrow> if inOrGroup then result @ '')'' else result)))"

text \<open>The part of the wizard state that the query text is built from.\<close>

record builder_state =
  selectedObjectApiName :: "string option"
  selectedObjectLabel :: "string option"
  objectSearchTerm :: string
  queryType :: string
  selectedFieldApiNames :: "string list"
  aggregateFunction :: "string option"
  aggregateFieldApiName :: "string option"
  aggregateFieldSearchTerm :: string
  whereConditions :: "condition list"
  conditionIdCounter :: nat
  activeOwnerFilter :: "string option"
  queryLimit :: "int option"

definition truthy_str :: "string option \<Rightarrow> bool" where
  "truthy_str x = (case x of None \<Rightarrow> False | Some s \<Rightarrow> s \<noteq> [])"

definition truthy_num :: "int option \<Rightarrow> bool" where
  "truthy_num x = (case x of None \<Rightarrow> False | Some n \<Rightarrow> n \<noteq> 0)"

definition isListMode :: "builder_state \<Rightarrow> bool" where
  "isListMode s \<longleftrightarrow> queryType s = ''List''"

definition isAggregateMode :: "builder_state \<Rightarrow> bool" where
  "isAggregateMode s \<longleftrightarrow> queryType s = ''Aggregate''"

text \<open>\<open>Array.prototype.join\<close> on an array of strings.\<close>

fun join :: "string \<Rightarrow> string list \<Rightarrow> string" where
  "join sep [] = []"
| "join sep [x] = x"
| "join sep (x # y # ys) = x @ sep @ join sep (y # ys)"

definition buildWhereClause :: "builder_state \<Rightarrow> string" where
  "buildWhereClause s = buildWhereClause_of (whereConditions s)"

definition from_sep :: string where "from_sep = newline # ''  FROM ''"
definition where_sep :: string where "where_sep = newline # '' WHERE ''"
definition limit_sep :: string where "limit_sep = newline # '' LIMIT ''"
definition field_sep :: string where "field_sep = CHR '','' # newline # ''       ''"

definition generatedSoql :: "builder_state \<Rightarrow> string" where
  "generatedSoql s =
     (if \<not> truthy_str (selectedObjectApiName s) then []
      else if isListMode s then
        (if length (selectedFieldApiNames s) = 0 then []
         else
           (let fields = join field_sep (selectedFieldApiNames s);
                query = ''SELECT '' @ fields @ from_sep @ the (selectedObjectApiName s);
                whereClause = buildWhereClause s;
                query1 = (if whereClause \<noteq> [] then query @ where_sep @ whereClause else query);
                query2 = (if truthy_num (queryLimit s)
                          then query1 @ limit_sep @ string_of_int (the (queryLimit s)) else query1)
            in query2))
      else if isAggregateMode s then
        (if \<not> truthy_str (aggregateFunction s) then []
         else
           (case (if aggregateFunction s = Some ''COUNT'' \<and> \<not> truthy_str (aggregateFieldApiName s)
                    then Some ''COUNT()''
                  else if \<not> truthy_str (aggregateFieldApiName s) then None
                  else Some (the (aggregateFunction s) @ ''('' @ the (aggregateFieldApiName s) @ '')'')) of
              None \<Rightarrow> []
            | Some selectClause \<Rightarrow>
                (let query = ''SELECT '' @ selectClause @ from_sep @ the (selectedObjectApiName s);
                     whereClause = buildWhereClause s
                 in if whereClause \<noteq> [] then query @ where_sep @ whereClause else query)))
      else [])"

subsection \<open>The notions the properties are stated with\<close>

text \<open>
  Escaping, character by character: a backslash becomes two, a single quote gets a
  backslash in front.
\<close>

definition esc_char :: "char \<Rightarrow> string" where
  "esc_char c = (if c = bslash then [bslash, bslash] else if c = squote then [bslash, squote] else [c])"

text \<open>
  Reading a SOQL string literal from just after its opening quote: a backslash takes
  the next character with it, the first quote that is not escaped closes the literal.
  The result is the text after the closing quote, or \<open>None\<close> for a literal that is
  never closed.
\<close>

fun literal_rest :: "string \<Rightarrow> string option" where
  "literal_rest [] = None"
| "literal_rest (c # cs) =
     (if c = squote then Some cs
      else if c = bslash then (case cs of [] \<Rightarrow> None | _ # cs' \<Rightarrow> literal_rest cs')
      else literal_rest cs)"

text \<open>
  The conditions whose value \<open>buildConditionClause\<close> puts between single quotes: the
  three LIKE operators, and, for an operator that is not a null test or a date
  literal, a value other than \<open>{!UserId}\<close> on a field that is not boolean, numeric
  or a date, where the operator is \<open>includes\<close>/\<open>excludes\<close> or the value does not
  begin like a date.
\<close>

definition like_operators :: "string list" where
  "like_operators = [''contains'', ''starts_with'', ''ends_with'']"

definition literal_operators :: "string list" where
  "literal_operators =
     [''is_null'', ''is_not_null'', ''date_today'', ''date_this_week'', ''date_this_month'',
      ''date_this_year'', ''date_last_n_days'', ''date_next_n_days'', ''date_gt_today'',
      ''date_lt_today'', ''date_gt_last_n_days'', ''date_lt_next_n_days'']"

definition value_quoted :: "condition \<Rightarrow> bool" where
  "value_quoted c \<longleftrightarrow>
     operator c \<in> set like_operators \<or>
     (operator c \<notin> set literal_operators \<and> cvalue c \<noteq> VStr ''{!UserId}'' \<and>
      fieldType c \<noteq> ''BOOLEAN'' \<and> fieldType c \<notin> set numericTypes \<and>
      fieldType c \<notin> set dateTypes \<and>
      (operator c = ''includes'' \<or> operator c = ''excludes'' \<or>
       \<not> (value_truthy (cvalue c) \<and> value_matches_date (cvalue c))))"

text \<open>Two conditions used as examples below.\<close>

definition obrien :: condition where
  "obrien = \<lparr>cond_id = ''cond_1'', fieldApiName = ''Name'', fieldLabel = ''Name'',
     fieldType = ''STRING'', operator = ''equals'',
     cvalue = VStr (''O'' @ [squote] @ ''Brien''), conjunction = ''AND''\<rparr>"

definition amount_injection :: condition where
  "amount_injection = \<lparr>cond_id = ''cond_1'', fieldApiName = ''Amount'', fieldLabel = ''Amount'',
     fieldType = ''INTEGER'', operator = ''equals'',
     cvalue = VStr (''0 OR Name != '' @ [squote] @ ''x'' @ [squote]), conjunction = ''AND''\<rparr>"

definition text_cond :: "string \<Rightarrow> string \<Rightarrow> string \<Rightarrow> condition" where
  "text_cond f v cj = \<lparr>cond_id = ''cond_'' @ f, fieldApiName = f, fieldLabel = f,
     fieldType = ''STRING'', operator = ''equals'', cvalue = VStr v, conjunction = cj\<rparr>"

definition zero_limit_state :: builder_state where
  "zero_limit_state = \<lparr>selectedObjectApiName = Some ''Account'', selectedObjectLabel = Some ''Account'',
     objectSearchTerm = ''Account'', queryType = ''List'', selectedFieldApiNames = [''Id'', ''Name''],
     aggregateFunction = None, aggregateFieldApiName = None, aggregateFieldSearchTerm = [],
     whereConditions = [], conditionIdCounter = 0, activeOwnerFilter = None, queryLimit = Some 0\<rparr>"

definition acme_state :: builder_state where
  "acme_state = \<lparr>selectedObjectApiName = Some ''Account'', selectedObjectLabel = Some ''Account'',
     objectSearchTerm = ''Account'', queryType = ''List'', selectedFieldApiNames = [''Id'', ''Name''],
     aggregateFunction = None, aggregateFieldApiName = None, aggregateFieldSearchTerm = [],
     whereConditions = [text_cond ''Name'' ''Acme'' ''AND''], conditionIdCounter = 1,
     activeOwnerFilter = None, queryLimit = Some 10\<rparr>"



text \<open>
  What the query text is computed from: per condition its field, type, operator, value
  and conjunction (not its id or label), and of the state the object, the query type,
  the selected fields, the aggregate function and field, the conditions and the limit.
\<close>

definition cond_inputs :: "condition \<Rightarrow> string \<times> string \<times> string \<times> cond_value \<times> string" where
  "cond_inputs c = (fieldApiName c, fieldType c, operator c, cvalue c, conjunction c)"



text \<open>In the words of the specification: a complete selection, and the parts of the query.\<close>

definition selection_complete :: "builder_state \<Rightarrow> bool" where
  "selection_complete s \<longleftrightarrow>
     truthy_str (selectedObjectApiName s) \<and>
     ((isListMode s \<and> selectedFieldApiNames s \<noteq> []) \<or>
      (isAggregateMode s \<and> truthy_str (aggregateFunction s) \<and>
       (aggregateFunction s = Some ''COUNT'' \<or> truthy_str (aggregateFieldApiName s))))"

definition select_list :: "builder_state \<Rightarrow> string" where
  "select_list s =
     (if isListMode s then join field_sep (selectedFieldApiNames s)
      else if truthy_str (aggregateFieldApiName s)
        then the (aggregateFunction s) @ ''('' @ the (aggregateFieldApiName s) @ '')''
      else ''COUNT()'')"

definition where_part :: "builder_state \<Rightarrow> string" where
  "where_part s =
     (if \<exists>c \<in> set (whereConditions s). valid_condition c
      then where_sep @ buildWhereClause s else [])"

definition limit_part :: "builder_state \<Rightarrow> string" where
  "limit_part s =
     (if isListMode s \<and> queryLimit s \<noteq> None \<and> queryLimit s \<noteq> Some 0
      then limit_sep @ string_of_int (the (queryLimit s)) else [])"

subsection \<open>Saving and loading the configuration\<close>

text \<open>
  \<open>serializeQueryConfig\<close> writes the configuration as JSON text and
  \<open>deserializeQueryConfig\<close> parses such a text. The text is represented by the
  configuration object it encodes: for the strings, integers, \<open>null\<close> and arrays that
  occur here, \<open>JSON.parse\<close> gives back what \<open>JSON.stringify\<close> was given. No text at all
  is \<open>None\<close>.
\<close>

record query_config =
  cfg_objectApiName :: "string option"
  cfg_objectLabel :: "string option"
  cfg_queryType :: string
  cfg_selectedFields :: "string list"
  cfg_aggregateFunction :: "string option"
  cfg_aggregateFieldApiName :: "string option"
  cfg_aggregateFieldSearchTerm :: string
  cfg_whereConditions :: "condition list"
  cfg_activeOwnerFilter :: "string option"
  cfg_queryLimit :: "int option"

definition serializeQueryConfig :: "builder_state \<Rightarrow> query_config" where
  "serializeQueryConfig s =
     \<lparr>cfg_objectApiName = selectedObjectApiName s,
      cfg_objectLabel = selectedObjectLabel s,
      cfg_queryType = queryType s,
      cfg_selectedFields = selectedFieldApiNames s,
      cfg_aggregateFunction = aggregateFunction s,
      cfg_aggregateFieldApiName = aggregateFieldApiName s,
      cfg_aggregateFieldSearchTerm = aggregateFieldSearchTerm s,
      cfg_whereConditions =
        map (\<lambda>c. \<lparr>cond_id = cond_id c, fieldApiName = fieldApiName c, fieldLabel = fieldLabel c,
                    fieldType = fieldType c, operator = operator c, cvalue = cvalue c,
                    conjunction = conjunction c\<rparr>) (whereConditions s),
      cfg_activeOwnerFilter = activeOwnerFilter s,
      cfg_queryLimit = queryLimit s\<rparr>"

text \<open>\<open>x || null\<close> on a string, and on a number.\<close>

definition opt_or_null :: "string option \<Rightarrow> string option" where
  "opt_or_null x = (if truthy_str x then x else None)"

definition num_or_null :: "int option \<Rightarrow> int option" where
  "num_or_null x = (if truthy_num x then x else None)"

text \<open>
  \<open>loadFieldsForObject\<close> fetches the fields of the object from the cache or the
  server; when it gets them (\<open>loaded\<close>) it clears the selected fields, when the call
  fails it reports the error and leaves them.
\<close>

definition loadFieldsForObject :: "bool \<Rightarrow> string \<Rightarrow> builder_state \<Rightarrow> builder_state" where
  "loadFieldsForObject loaded objectApiName s =
     (if objectApiName = [] then s
      else if loaded then s\<lparr>selectedFieldApiNames := []\<rparr>
      else s)"

text \<open>
  The conditions are restored in order; one without an id gets the next id from the
  condition counter.
\<close>

fun restore_conditions :: "nat \<Rightarrow> condition list \<Rightarrow> condition list \<times> nat" where
  "restore_conditions counter [] = ([], counter)"
| "restore_conditions counter (c # cs) =
     (if cond_id c \<noteq> [] then
        (case restore_conditions counter cs of (cs', n) \<Rightarrow> (c # cs', n))
      else
        (case restore_conditions (Suc counter) cs of
           (cs', n) \<Rightarrow> (c\<lparr>cond_id := ''cond_'' @ string_of_nat (Suc counter)\<rparr> # cs', n)))"

definition deserializeQueryConfig ::
  "bool \<Rightarrow> query_config option \<Rightarrow> builder_state \<Rightarrow> builder_state" where
  "deserializeQueryConfig loaded configJson s =
     (case configJson of
        None \<Rightarrow> s
      | Some config \<Rightarrow>
          (let s1 = s\<lparr>selectedObjectApiName := opt_or_null (cfg_objectApiName config),
                       selectedObjectLabel := opt_or_null (cfg_objectLabel config),
                       objectSearchTerm := str_or (cfg_objectLabel config) [],
                       queryType := str_or (Some (cfg_queryType config)) ''List'',
                       aggregateFunction := opt_or_null (cfg_aggregateFunction config),
                       aggregateFieldApiName := opt_or_null (cfg_aggregateFieldApiName config),
                       aggregateFieldSearchTerm := str_or (Some (cfg_aggregateFieldSearchTerm config)) []\<rparr>;
               s2 = (if truthy_str (cfg_objectApiName config)
                     then loadFieldsForObject loaded (the (cfg_objectApiName config)) s1 else s1);
               s3 = s2\<lparr>selectedFieldApiNames := cfg_selectedFields config\<rparr>;
               (conds, counter) = restore_conditions (conditionIdCounter s3) (cfg_whereConditions config)
           in s3\<lparr>whereConditions := conds, conditionIdCounter := counter,
                  activeOwnerFilter := opt_or_null (cfg_activeOwnerFilter config),
                  queryLimit := num_or_null (cfg_queryLimit config)\<rparr>))"

text \<open>Loading into a component \<open>target\<close> what was saved of a component \<open>s\<close>.\<close>

definition restored :: "bool \<Rightarrow> builder_state \<Rightarrow> builder_state \<Rightarrow> builder_state" where
  "restored loaded s target = deserializeQueryConfig loaded (Some (serializeQueryConfig s)) target"

section \<open>Configurable list: filter, sort, pagination\<close>

text \<open>
  \<open>HM_ConfigurableList\<close>. A cell carries the key of its column and the raw field
  value; \<open>None\<close> is a raw value that is \<open>null\<close> or \<open>undefined\<close>, and an entry of
  \<open>cells\<close> may itself be missing. The raw values are of a type \<open>'v\<close> that the
  program only looks at through the platform: \<open>Number(v)\<close>, \<open>new Date(v).getTime()\<close>,
  \<open>String(v || "")\<close>, \<open>toLowerCase\<close> and \<open>localeCompare\<close>. A number that is \<open>NaN\<close> is
  \<open>None\<close>.
\<close>

record 'v cell =
  key :: string
  rawValue :: "'v option"

record 'v row =
  objectType :: string
  cells :: "'v cell option list"

record column =
  col_key :: string
  formatType :: string

record 'v platform =
  toNumber :: "'v \<Rightarrow> real option"
  getTime :: "'v \<Rightarrow> real option"
  toText :: "'v \<Rightarrow> string"
  lowerCase :: "string \<Rightarrow> string"
  localeCompare :: "string \<Rightarrow> string \<Rightarrow> real"

text \<open>
  Arrays are objects: \<open>this.filteredRows = this.rows\<close> makes both fields name one
  array, and \<open>sort\<close> works in place. So the arrays of rows live in a store, and the
  component holds their addresses.
\<close>

type_synonym addr = nat

record 'v list_state =
  heap :: "addr \<Rightarrow> 'v row list"
  next_addr :: addr
  rows :: addr
  filteredRows :: addr
  activeFilter :: "string option"
  columns :: "column list"
  currentPage :: int
  recordsPerPage :: int
  enablePagination :: bool
  totalPages :: int
  sortColumn :: "string option"
  sortDirection :: string
  enableColumnSorting :: bool

definition alloc :: "'v list_state \<Rightarrow> 'v row list \<Rightarrow> addr \<times> 'v list_state" where
  "alloc s xs = (next_addr s, s\<lparr>heap := (heap s)(next_addr s := xs), next_addr := Suc (next_addr s)\<rparr>)"

definition getCellValue :: "'v row \<Rightarrow> string \<Rightarrow> 'v option" where
  "getCellValue r columnKey =
     (case find (\<lambda>c. case c of None \<Rightarrow> False | Some c' \<Rightarrow> key c' = columnKey) (cells r) of
        None \<Rightarrow> None
      | Some None \<Rightarrow> None
      | Some (Some c') \<Rightarrow> rawValue c')"

text \<open>\<open>x || 0\<close> on a number: \<open>NaN\<close> and zero give zero.\<close>

definition num_or_zero :: "real option \<Rightarrow> real" where
  "num_or_zero x = (case x of None \<Rightarrow> 0 | Some r \<Rightarrow> r)"

definition negate :: "real option \<Rightarrow> real option" where
  "negate x = map_option uminus x"

definition compareCellValues ::
  "'v platform \<Rightarrow> 'v option \<Rightarrow> 'v option \<Rightarrow> string \<Rightarrow> string \<Rightarrow> real option" where
  "compareCellValues pf aValue bValue fmt direction =
     (case aValue of
        None \<Rightarrow> Some 1
      | Some a \<Rightarrow>
          (case bValue of
             None \<Rightarrow> Some (- 1)
           | Some b \<Rightarrow>
               (let comparison =
                      (if fmt = ''Currency'' \<or> fmt = ''Number''
                         then Some (num_or_zero (toNumber pf a) - num_or_zero (toNumber pf b))
                       else if fmt = ''Date''
                         then (case (getTime pf a, getTime pf b) of
                                 (Some ta, Some tb) \<Rightarrow> Some (ta - tb)
                               | _ \<Rightarrow> None)
                       else if fmt = ''Percent''
                         then Some (num_or_zero (toNumber pf a) - num_or_zero (toNumber pf b))
                       else Some (localeCompare pf (lowerCase pf (toText pf a))
                                    (lowerCase pf (toText pf b))))
                in if direction = ''asc'' then comparison else negate comparison)))"

text \<open>
  \<open>Array.prototype.sort\<close> with a comparison function is a stable sort that puts
  \<open>a\<close> before \<open>b\<close> when the function returns a negative number for them (\<open>NaN\<close>
  counts as zero). It is modelled by stable insertion: each element in turn is placed
  in front of the first element already placed that it has to come before.
\<close>

definition comes_before :: "real option \<Rightarrow> bool" where
  "comes_before v = (case v of None \<Rightarrow> False | Some r \<Rightarrow> r < 0)"

fun place :: "('a \<Rightarrow> 'a \<Rightarrow> bool) \<Rightarrow> 'a \<Rightarrow> 'a list \<Rightarrow> 'a list" where
  "place bf x [] = [x]"
| "place bf x (y # ys) = (if bf x y then x # y # ys else y # place bf x ys)"

definition array_sort :: "('a \<Rightarrow> 'a \<Rightarrow> real option) \<Rightarrow> 'a list \<Rightarrow> 'a list" where
  "array_sort comparefn xs = foldl (\<lambda>acc x. place (\<lambda>a b. comes_before (comparefn a b)) x acc) [] xs"

definition row_compare ::
  "'v platform \<Rightarrow> string \<Rightarrow> string \<Rightarrow> string \<Rightarrow> 'v row \<Rightarrow> 'v row \<Rightarrow> real option" where
  "row_compare pf columnKey direction fmt a b =
     compareCellValues pf (getCellValue a columnKey) (getCellValue b columnKey) fmt direction"

text \<open>\<open>sortRows\<close>: \<open>[...rows]\<close> is a new array, which \<open>sort\<close> orders in place and returns.\<close>

definition sortRows ::
  "'v platform \<Rightarrow> 'v list_state \<Rightarrow> addr \<Rightarrow> string \<Rightarrow> string \<Rightarrow> string \<Rightarrow> addr \<times> 'v list_state" where
  "sortRows pf s rws columnKey direction fmt =
     (case alloc s (heap s rws) of
        (copy, s1) \<Rightarrow>
          (copy, s1\<lparr>heap := (heap s1)(copy := array_sort (row_compare pf columnKey direction fmt)
                                                  (heap s1 copy))\<rparr>))"

text \<open>\<open>Math.ceil(a / b)\<close> for integers \<open>a\<close> and \<open>b \<noteq> 0\<close>.\<close>

definition ceil_div :: "int \<Rightarrow> int \<Rightarrow> int" where
  "ceil_div a b = - ((- a) div b)"

definition updatePagination :: "'v list_state \<Rightarrow> 'v list_state" where
  "updatePagination s =
     (if \<not> enablePagination s then s\<lparr>totalPages := 1\<rparr>
      else
        (let totalRecords = int (length (heap s (filteredRows s)));
             s1 = s\<lparr>totalPages := max 1 (ceil_div totalRecords (recordsPerPage s))\<rparr>
         in if currentPage s1 > totalPages s1 then s1\<lparr>currentPage := totalPages s1\<rparr> else s1))"

text \<open>
  \<open>applyFilter\<close>. Its two loops that write \<open>visibleCells\<close> on every filtered row and
  \<open>active\<close> and \<open>class\<close> on every filter button change no field kept in this model.
\<close>

definition applyFilter :: "'v platform \<Rightarrow> 'v list_state \<Rightarrow> 'v list_state" where
  "applyFilter pf s =
     (let s1 = (if truthy_str (activeFilter s) \<and> activeFilter s \<noteq> Some ''all''
                then (case alloc s (filter (\<lambda>r. Some (objectType r) = activeFilter s)
                                      (heap s (rows s))) of
                        (a, s') \<Rightarrow> s'\<lparr>filteredRows := a\<rparr>)
                else s\<lparr>filteredRows := rows s\<rparr>);
          s2 = (if enableColumnSorting s1 \<and> truthy_str (sortColumn s1)
                then (case find (\<lambda>col. Some (col_key col) = sortColumn s1) (columns s1) of
                        None \<Rightarrow> s1
                      | Some col \<Rightarrow>
                          (case sortRows pf s1 (filteredRows s1) (the (sortColumn s1))
                                  (sortDirection s1) (formatType col) of
                             (sorted_rows, s') \<Rightarrow> s'\<lparr>filteredRows := sorted_rows\<rparr>))
                else s1);
          s3 = s2\<lparr>currentPage := 1\<rparr>
      in updatePagination s3)"






text \<open>A platform on integer raw values and a list of five rows, used as examples below.\<close>


fun code_unit_compare :: "string \<Rightarrow> string \<Rightarrow> real" where
  "code_unit_compare [] [] = 0"
| "code_unit_compare [] (y # ys) = - 1"
| "code_unit_compare (x # xs) [] = 1"
| "code_unit_compare (x # xs) (y # ys) =
     (if (of_char x :: nat) < of_char y then - 1
      else if (of_char y :: nat) < of_char x then 1
      else code_unit_compare xs ys)"

definition int_platform :: "int platform" where
  "int_platform = \<lparr>toNumber = (\<lambda>v. Some (real_of_int v)), getTime = (\<lambda>v. Some (real_of_int v)),
     toText = string_of_int, lowerCase = toLowerCase, localeCompare = code_unit_compare\<rparr>"

definition amount_row :: "string \<Rightarrow> int option \<Rightarrow> int row" where
  "amount_row t v = \<lparr>objectType = t, cells = [None, Some \<lparr>key = ''amount'', rawValue = v\<rparr>]\<rparr>"

definition five_rows :: "int row list" where
  "five_rows = [amount_row ''Case'' (Some 30), amount_row ''Case'' None,
     amount_row ''Account'' (Some 7), amount_row ''Case'' (Some 10), amount_row ''Case'' (Some 20)]"


definition sort_demo :: "int list_state" where
  "sort_demo = \<lparr>heap = (\<lambda>_. [])(0 := five_rows), next_addr = 1, rows = 0, filteredRows = 0,
     activeFilter = Some ''Case'', columns = [\<lparr>col_key = ''amount'', formatType = ''Currency''\<rparr>],
     currentPage = 2, recordsPerPage = 2, enablePagination = True, totalPages = 3,
     sortColumn = Some ''amount'', sortDirection = ''desc'', enableColumnSorting = True\<rparr>"

subsection \<open>The notions the properties are stated with\<close>



text \<open>The rows that pass the active filter: all rows when no filter or \<open>all\<close> is active.\<close>

definition visible_rows :: "'v list_state \<Rightarrow> 'v row list" where
  "visible_rows s =
     (if truthy_str (activeFilter s) \<and> activeFilter s \<noteq> Some ''all''
      then filter (\<lambda>r. Some (objectType r) = activeFilter s) (heap s (rows s))
      else heap s (rows s))"

text \<open>
  The order the specification names, on two raw values that are not null: by number for
  Currency, Number and Percent, by time for Date, by the collation of the lower-cased
  texts otherwise.
\<close>

definition numeric_formats :: "string set" where
  "numeric_formats = {''Currency'', ''Number'', ''Percent''}"

definition value_le :: "'v platform \<Rightarrow> string \<Rightarrow> 'v \<Rightarrow> 'v \<Rightarrow> bool" where
  "value_le pf fmt a b \<longleftrightarrow>
     (if fmt \<in> numeric_formats then num_or_zero (toNumber pf a) \<le> num_or_zero (toNumber pf b)
      else if fmt = ''Date'' then
        (case (getTime pf a, getTime pf b) of (Some ta, Some tb) \<Rightarrow> ta \<le> tb | _ \<Rightarrow> True)
      else localeCompare pf (lowerCase pf (toText pf a)) (lowerCase pf (toText pf b)) \<le> 0)"

text \<open>
  What the platform has to provide for the values of a column to be comparable: for a
  Date column, values that parse to a time; for a text column, a \<open>localeCompare\<close>
  that is a collation (antisymmetric in sign, transitive). Numbers need nothing.
\<close>

definition comparable :: "'v platform \<Rightarrow> string \<Rightarrow> 'v set \<Rightarrow> bool" where
  "comparable pf fmt S \<longleftrightarrow>
     (fmt = ''Date'' \<longrightarrow> (\<forall>v \<in> S. getTime pf v \<noteq> None)) \<and>
     (fmt \<notin> numeric_formats \<and> fmt \<noteq> ''Date'' \<longrightarrow>
        (\<forall>x y. (localeCompare pf x y < 0) = (0 < localeCompare pf y x)) \<and>
        (\<forall>x y z. localeCompare pf x y \<le> 0 \<and> localeCompare pf y z \<le> 0 \<longrightarrow>
                 localeCompare pf x z \<le> 0))"

text \<open>
  \<open>a\<close> is put before \<open>b\<close>; and the property of that relation which makes insertion
  produce an ordered array: no two elements are each before the other, and an element
  before another is before, or has before it, any third.
\<close>

definition val_before :: "'v platform \<Rightarrow> string \<Rightarrow> string \<Rightarrow> 'v option \<Rightarrow> 'v option \<Rightarrow> bool" where
  "val_before pf fmt dir a b = comes_before (compareCellValues pf a b fmt dir)"

definition strict_weak :: "('a \<Rightarrow> 'a \<Rightarrow> bool) \<Rightarrow> 'a set \<Rightarrow> bool" where
  "strict_weak bf A \<longleftrightarrow>
     (\<forall>a \<in> A. \<forall>b \<in> A. bf a b \<longrightarrow> \<not> bf b a) \<and>
     (\<forall>a \<in> A. \<forall>b \<in> A. \<forall>c \<in> A. bf a c \<longrightarrow> bf a b \<or> bf b c)"


subsection \<open>Days badge of a date cell\<close>














section \<open>Properties of the component group\<close>

lemma toLowerCase_Nil_iff: "toLowerCase s = [] \<longleftrightarrow> s = []"
  by (simp add: toLowerCase_def)

lemma toLowerCase_Nil: "toLowerCase [] = []"
  by (simp add: toLowerCase_def)

lemma toLowerCase_Horizontal: "toLowerCase ''Horizontal'' = ''horizontal''"
  by code_simp

lemma toLowerCase_Vertical: "toLowerCase ''Vertical'' = ''vertical''"
  by code_simp

lemma toLowerCase_Grid: "toLowerCase ''Grid'' = ''grid''"
  by code_simp

text \<open>
  C8. \<open>layoutClass\<close> is the vertical class exactly for a layout type that equals
  \<open>Vertical\<close> up to case, the grid class exactly for one that equals \<open>Grid\<close> up to
  case, and the horizontal class in every other case, a missing configuration and a
  missing layout type included. \<open>layoutStyle\<close> is \<open>--components-per-row: N;\<close>
  exactly when the configuration sets \<open>componentsPerRow\<close> to a truthy (non-zero)
  \<open>N\<close>, and empty otherwise.
\<close>

theorem layout_class_and_style:
  "(layoutClass g = LAYOUT_VERTICAL \<longleftrightarrow> layout_is g ''Vertical'') \<and>
   (layoutClass g = LAYOUT_GRID \<longleftrightarrow> layout_is g ''Grid'') \<and>
   (\<not> layout_is g ''Vertical'' \<and> \<not> layout_is g ''Grid'' \<longrightarrow> layoutClass g = LAYOUT_HORIZONTAL) \<and>
   (\<forall>cfg n. g = Some cfg \<and> componentsPerRow cfg = Some n \<and> n \<noteq> 0 \<longrightarrow>
      layoutStyle g = ''--components-per-row: '' @ string_of_int n @ '';'') \<and>
   ((\<nexists>cfg n. g = Some cfg \<and> componentsPerRow cfg = Some n \<and> n \<noteq> 0) \<longrightarrow> layoutStyle g = [])"
proof -
  have cls: "LAYOUT_VERTICAL \<noteq> LAYOUT_GRID" "LAYOUT_VERTICAL \<noteq> LAYOUT_HORIZONTAL"
    "LAYOUT_GRID \<noteq> LAYOUT_HORIZONTAL"
    by (simp_all add: LAYOUT_VERTICAL_def LAYOUT_GRID_def LAYOUT_HORIZONTAL_def)
  have v: "layoutClass g = LAYOUT_VERTICAL \<longleftrightarrow> layout_is g ''Vertical''"
    using cls
    by (auto simp: layoutClass_def layout_is_def str_or_def Let_def toLowerCase_Nil_iff
        toLowerCase_Nil toLowerCase_Vertical toLowerCase_Grid toLowerCase_Horizontal
        DEFAULT_LAYOUT_def split: option.splits if_splits)
  have gr: "layoutClass g = LAYOUT_GRID \<longleftrightarrow> layout_is g ''Grid''"
    using cls
    by (auto simp: layoutClass_def layout_is_def str_or_def Let_def toLowerCase_Nil_iff
        toLowerCase_Nil toLowerCase_Vertical toLowerCase_Grid toLowerCase_Horizontal
        DEFAULT_LAYOUT_def split: option.splits if_splits)
  have h: "\<not> layout_is g ''Vertical'' \<and> \<not> layout_is g ''Grid'' \<longrightarrow>
      layoutClass g = LAYOUT_HORIZONTAL"
    using v gr by (auto simp: layoutClass_def Let_def split: option.splits)
  have s1: "\<forall>cfg n. g = Some cfg \<and> componentsPerRow cfg = Some n \<and> n \<noteq> 0 \<longrightarrow>
      layoutStyle g = ''--components-per-row: '' @ string_of_int n @ '';''"
    by (simp add: layoutStyle_def componentsPerRow_get_def)
  have s2: "(\<nexists>cfg n. g = Some cfg \<and> componentsPerRow cfg = Some n \<and> n \<noteq> 0) \<longrightarrow>
      layoutStyle g = []"
    by (auto simp: layoutStyle_def componentsPerRow_get_def split: option.splits)
  from v gr h s1 s2 show ?thesis by blast
qed

theorem layout_class_and_style_witness:
  "layoutClass (Some \<lparr>layoutType = Some ''GRID'', componentsPerRow = Some 3\<rparr>) = LAYOUT_GRID \<and>
   layoutStyle (Some \<lparr>layoutType = Some ''GRID'', componentsPerRow = Some 3\<rparr>) =
     ''--components-per-row: 3;'' \<and>
   layoutClass None = LAYOUT_HORIZONTAL \<and> layoutStyle None = []"
proof -
  let ?g = "Some \<lparr>layoutType = Some ''GRID'', componentsPerRow = Some 3\<rparr>"
  have a: "layout_is ?g ''Grid''"
    by code_simp
  have n3: "string_of_int 3 = ''3''"
    by (simp add: string_of_int_def string_of_nat.simps)
  have b: "\<not> layout_is None ''Vertical'' \<and> \<not> layout_is None ''Grid''"
    by (simp add: layout_is_def)
  have c: "\<nexists>cfg n. (None :: group_config option) = Some cfg \<and> componentsPerRow cfg = Some n \<and> n \<noteq> 0"
    by simp
  from layout_class_and_style [of ?g] a n3 have "layoutClass ?g = LAYOUT_GRID"
    "layoutStyle ?g = ''--components-per-row: 3;''"
    by simp_all
  moreover from layout_class_and_style [of None] b c have "layoutClass None = LAYOUT_HORIZONTAL"
    "layoutStyle None = []"
    by blast+
  ultimately show ?thesis by simp
qed

section \<open>Properties of the query builder\<close>

lemma escape_chars: "escapeSoqlValue (VStr s) = concat (map esc_char s)"
  by (induction s) (simp_all add: escapeSoqlValue_def replace_char_def esc_char_def)

lemma literal_rest_esc: "literal_rest (concat (map esc_char s) @ rest) = literal_rest rest"
  by (induction s) (simp_all add: esc_char_def)

lemma literal_rest_escaped: "literal_rest (escapeSoqlValue v @ rest) = literal_rest rest"
  by (cases v) (simp_all add: escape_chars literal_rest_esc, simp_all add: escapeSoqlValue_def)

lemma literal_rest_percent: "literal_rest (CHR ''%'' # rest) = literal_rest rest"
  by simp

lemma clause_contains:
  "operator c = ''contains'' \<Longrightarrow>
   buildConditionClause c =
     (fieldApiName c @ '' LIKE '') @ [squote] @ ''%'' @ escapeSoqlValue (cvalue c) @ ''%'' @ [squote] @ []"
  by (simp add: buildConditionClause_def Let_def)

lemma clause_starts_with:
  "operator c = ''starts_with'' \<Longrightarrow>
   buildConditionClause c =
     (fieldApiName c @ '' LIKE '') @ [squote] @ [] @ escapeSoqlValue (cvalue c) @ ''%'' @ [squote] @ []"
  by (simp add: buildConditionClause_def Let_def)

lemma clause_ends_with:
  "operator c = ''ends_with'' \<Longrightarrow>
   buildConditionClause c =
     (fieldApiName c @ '' LIKE '') @ [squote] @ ''%'' @ escapeSoqlValue (cvalue c) @ [] @ [squote] @ []"
  by (simp add: buildConditionClause_def Let_def)

lemma clause_includes:
  assumes "operator c = ''includes'' \<or> operator c = ''excludes''"
    and "cvalue c \<noteq> VStr ''{!UserId}''" and "fieldType c \<noteq> ''BOOLEAN''"
    and "fieldType c \<notin> set numericTypes" and "fieldType c \<notin> set dateTypes"
  shows "buildConditionClause c =
     (fieldApiName c @ '' '' @ str_or (map_of OPERATOR_MAP (operator c)) ''='' @ '' ('') @ [squote] @ [] @
       escapeSoqlValue (cvalue c) @ [] @ [squote] @ '')''"
  using assms by (auto simp add: buildConditionClause_def Let_def)

lemma clause_default:
  assumes "operator c \<notin> set like_operators" and "operator c \<notin> set literal_operators"
    and "cvalue c \<noteq> VStr ''{!UserId}''" and "fieldType c \<noteq> ''BOOLEAN''"
    and "fieldType c \<notin> set numericTypes" and "fieldType c \<notin> set dateTypes"
    and "operator c \<noteq> ''includes''" and "operator c \<noteq> ''excludes''"
    and "\<not> (value_truthy (cvalue c) \<and> value_matches_date (cvalue c))"
  shows "buildConditionClause c =
     (fieldApiName c @ '' '' @ str_or (map_of OPERATOR_MAP (operator c)) ''='' @ '' '') @ [squote] @ [] @
       escapeSoqlValue (cvalue c) @ [] @ [squote] @ []"
  using assms by (auto simp add: buildConditionClause_def Let_def like_operators_def literal_operators_def)

text \<open>
  C1, as amended. For every condition whose value is put between single quotes, the
  clause is the quoted literal with the escaped value in it (between \<open>%\<close> signs for
  the LIKE operators); in the escaped value every backslash of the value has become
  two backslashes and every single quote a backslash and a quote; and the literal
  read from its opening quote ends at the closing quote that \<open>buildConditionClause\<close>
  wrote, so the value cannot end it early.
\<close>

theorem quoted_values_escaped:
  assumes "value_quoted c"
  shows "\<exists>pre l r post.
     buildConditionClause c = pre @ [squote] @ l @ escapeSoqlValue (cvalue c) @ r @ [squote] @ post \<and>
     set l \<subseteq> {CHR ''%''} \<and> set r \<subseteq> {CHR ''%''} \<and>
     literal_rest (l @ escapeSoqlValue (cvalue c) @ r @ [squote] @ post) = Some post \<and>
     (\<forall>s. cvalue c = VStr s \<longrightarrow> escapeSoqlValue (cvalue c) = concat (map esc_char s))"
proof -
  let ?e = "escapeSoqlValue (cvalue c)"
  have shape: "\<exists>pre l r post.
     buildConditionClause c = pre @ [squote] @ l @ ?e @ r @ [squote] @ post \<and>
     set l \<subseteq> {CHR ''%''} \<and> set r \<subseteq> {CHR ''%''}"
  proof -
    consider (a) "operator c = ''contains''" | (b) "operator c = ''starts_with''"
      | (c) "operator c = ''ends_with''"
      | (d) "operator c \<notin> set like_operators" "operator c = ''includes'' \<or> operator c = ''excludes''"
          "cvalue c \<noteq> VStr ''{!UserId}''" "fieldType c \<noteq> ''BOOLEAN''"
          "fieldType c \<notin> set numericTypes" "fieldType c \<notin> set dateTypes"
      | (e) "operator c \<notin> set like_operators" "operator c \<notin> set literal_operators"
          "cvalue c \<noteq> VStr ''{!UserId}''" "fieldType c \<noteq> ''BOOLEAN''"
          "fieldType c \<notin> set numericTypes" "fieldType c \<notin> set dateTypes"
          "operator c \<noteq> ''includes''" "operator c \<noteq> ''excludes''"
          "\<not> (value_truthy (cvalue c) \<and> value_matches_date (cvalue c))"
      using assms unfolding value_quoted_def like_operators_def by auto
    then show ?thesis
    proof cases
      case a
      from clause_contains [OF a] show ?thesis by (intro exI conjI) (assumption, simp_all)
    next
      case b
      from clause_starts_with [OF b] show ?thesis by (intro exI conjI) (assumption, simp_all)
    next
      case c
      from clause_ends_with [OF c] show ?thesis by (intro exI conjI) (assumption, simp_all)
    next
      case d
      from clause_includes [OF d(2-6)] show ?thesis by (intro exI conjI) (assumption, simp_all)
    next
      case e
      from clause_default [OF e] show ?thesis by (intro exI conjI) (assumption, simp_all)
    qed
  qed
  then obtain pre l r post where
    eq: "buildConditionClause c = pre @ [squote] @ l @ ?e @ r @ [squote] @ post"
    and l: "set l \<subseteq> {CHR ''%''}" and r: "set r \<subseteq> {CHR ''%''}"
    by blast
  have skip: "literal_rest (xs @ rest) = literal_rest rest" if "set xs \<subseteq> {CHR ''%''}" for xs rest
    using that by (induction xs) simp_all
  have "literal_rest (l @ ?e @ r @ [squote] @ post) = literal_rest (?e @ r @ [squote] @ post)"
    by (rule skip [OF l])
  also have "\<dots> = literal_rest (r @ [squote] @ post)"
    by (rule literal_rest_escaped)
  also have "\<dots> = literal_rest ([squote] @ post)"
    by (rule skip [OF r])
  also have "\<dots> = Some post" by simp
  finally have lit: "literal_rest (l @ ?e @ r @ [squote] @ post) = Some post" .
  have esc: "\<forall>s. cvalue c = VStr s \<longrightarrow> ?e = concat (map esc_char s)"
    by (simp add: escape_chars)
  from eq l r lit esc show ?thesis by blast
qed

theorem quoted_values_escaped_witness:
  "value_quoted obrien \<and>
   buildConditionClause obrien = ''Name = '' @ [squote] @ ''O'' @ [bslash, squote] @ ''Brien'' @ [squote] \<and>
   (\<exists>pre l r post.
     buildConditionClause obrien =
       pre @ [squote] @ l @ escapeSoqlValue (cvalue obrien) @ r @ [squote] @ post \<and>
     literal_rest (l @ escapeSoqlValue (cvalue obrien) @ r @ [squote] @ post) = Some post)"
proof -
  have h: "value_quoted obrien" by code_simp
  have v: "buildConditionClause obrien =
      ''Name = '' @ [squote] @ ''O'' @ [bslash, squote] @ ''Brien'' @ [squote]"
    by code_simp
  from quoted_values_escaped [OF h] h v show ?thesis by blast
qed

text \<open>
  C1 as stated fails for a value that is not quoted: on a numeric field the value is
  copied into the clause as it is, quotes included.
\<close>

theorem numeric_value_not_escaped:
  "buildConditionClause amount_injection = ''Amount = 0 OR Name != '' @ [squote] @ ''x'' @ [squote] \<and>
   escapeSoqlValue (cvalue amount_injection) =
     ''0 OR Name != '' @ [bslash, squote] @ ''x'' @ [bslash, squote] \<and>
   \<not> sublist (escapeSoqlValue (cvalue amount_injection)) (buildConditionClause amount_injection)"
  by code_simp

text \<open>
  C2. For the conditions \<open>A\<close>, \<open>OR B\<close>, \<open>AND C\<close> the clause is
  \<open>A AND (B) AND C\<close>: the parentheses hold the OR-joined condition alone, without the
  condition before it, and the OR the user chose between \<open>A\<close> and \<open>B\<close> has become
  AND: the clause contains no OR at all.
\<close>

theorem or_group_drops_preceding_condition:
  "buildWhereClause_of
     [text_cond ''A'' ''1'' ''AND'', text_cond ''B'' ''2'' ''OR'', text_cond ''C'' ''3'' ''AND''] =
     ''A = '' @ [squote] @ ''1'' @ [squote] @ newline # ''    AND (B = '' @ [squote] @ ''2'' @ [squote] @ '')'' @
     newline # ''    AND C = '' @ [squote] @ ''3'' @ [squote] \<and>
   \<not> sublist ''OR''
     (buildWhereClause_of
        [text_cond ''A'' ''1'' ''AND'', text_cond ''B'' ''2'' ''OR'', text_cond ''C'' ''3'' ''AND''])"
  by code_simp

lemma clause_nonempty: "fieldApiName c \<noteq> [] \<Longrightarrow> buildConditionClause c \<noteq> []"
proof -
  assume f: "fieldApiName c \<noteq> []"
  have if_ne: "(if b then x else y) \<noteq> []" if "x \<noteq> []" "y \<noteq> []" for b and x y :: string
    using that by simp
  show ?thesis
    unfolding buildConditionClause_def Let_def
    by (intro if_ne) (simp_all add: f)
qed

lemma where_loop_nonempty: "result \<noteq> [] \<Longrightarrow> fst (where_loop result g cs) \<noteq> []"
  by (induction cs arbitrary: result g) (simp_all add: Let_def)

lemma buildWhereClause_of_nonempty:
  "buildWhereClause_of cs \<noteq> [] \<longleftrightarrow> (\<exists>c \<in> set cs. valid_condition c)"
proof (cases "filter valid_condition cs")
  case Nil
  then show ?thesis
    by (simp add: buildWhereClause_of_def filter_empty_conv)
next
  case (Cons c rest)
  then have "c \<in> set (filter valid_condition cs)" by simp
  then have c: "c \<in> set cs" "valid_condition c" by simp_all
  then have ne: "buildConditionClause c \<noteq> []"
    by (simp add: clause_nonempty valid_condition_def)
  have "fst (where_loop (buildConditionClause c) False rest) \<noteq> []"
    by (rule where_loop_nonempty [OF ne])
  then have "buildWhereClause_of cs \<noteq> []"
    using Cons ne
    by (auto simp add: buildWhereClause_of_def simple_join_def Let_def split: prod.splits)
  with c show ?thesis by blast
qed

lemma where_part_eq:
  "where_part s = (if buildWhereClause s \<noteq> [] then where_sep @ buildWhereClause s else [])"
  by (simp add: where_part_def buildWhereClause_def buildWhereClause_of_nonempty)

text \<open>
  C3, as amended. \<open>generatedSoql\<close> is non-empty exactly for a complete selection: an
  object, and in List mode at least one field, or in Aggregate mode a function and,
  unless the function is COUNT, a field. A non-empty result is \<open>SELECT\<close>, the field
  list or \<open>FUNC(field)\<close> or \<open>COUNT()\<close>, \<open>FROM\<close> and the object, then a WHERE clause
  exactly when some condition has a field and an operator, then, in List mode only, a
  LIMIT clause exactly when \<open>queryLimit\<close> is a number other than zero.
\<close>

theorem generated_soql_shape:
  "(generatedSoql s \<noteq> [] \<longleftrightarrow> selection_complete s) \<and>
   (selection_complete s \<longrightarrow>
      generatedSoql s =
        ''SELECT '' @ select_list s @ from_sep @ the (selectedObjectApiName s) @
        where_part s @ limit_part s)"
proof -
  have a: "isListMode s \<Longrightarrow> \<not> isAggregateMode s"
    by (simp add: isListMode_def isAggregateMode_def)
  have shape: "generatedSoql s =
        ''SELECT '' @ select_list s @ from_sep @ the (selectedObjectApiName s) @
        where_part s @ limit_part s" if "selection_complete s"
    using that a
    by (auto simp add: generatedSoql_def selection_complete_def select_list_def where_part_eq
        limit_part_def truthy_num_def Let_def split: option.splits)
  have "generatedSoql s = []" if "\<not> selection_complete s"
    using that a
    by (auto simp add: generatedSoql_def selection_complete_def Let_def)
  with shape show ?thesis by auto
qed

text \<open>
  C3 as stated fails for a query limit that is set to zero: the query has no LIMIT
  clause.
\<close>

theorem zero_limit_no_clause:
  "queryLimit zero_limit_state = Some 0 \<and>
   generatedSoql zero_limit_state = ''SELECT Id,'' @ newline # ''       Name'' @ newline # ''  FROM Account''"
  by code_simp


theorem generated_soql_shape_witness:
  "selection_complete acme_state \<and>
   generatedSoql acme_state =
     ''SELECT Id,'' @ newline # ''       Name'' @ newline # ''  FROM Account'' @
     newline # '' WHERE Name = '' @ [squote] @ ''Acme'' @ [squote] @ newline # '' LIMIT 10''"
proof -
  have h: "selection_complete acme_state" by code_simp
  have r: "''SELECT '' @ select_list acme_state @ from_sep @ the (selectedObjectApiName acme_state) @
        where_part acme_state @ limit_part acme_state =
     ''SELECT Id,'' @ newline # ''       Name'' @ newline # ''  FROM Account'' @
     newline # '' WHERE Name = '' @ [squote] @ ''Acme'' @ [squote] @ newline # '' LIMIT 10''"
    by code_simp
  from generated_soql_shape [of acme_state] h r show ?thesis by simp
qed













section \<open>Properties of the configurable list\<close>










lemma mset_place: "mset (place bf x ys) = add_mset x (mset ys)"
  by (induction ys) simp_all

lemma set_place: "set (place bf x ys) = insert x (set ys)"
  by (induction ys) auto

lemma mset_foldl_place:
  "mset (foldl (\<lambda>acc x. place bf x acc) acc xs) = mset acc + mset xs"
  by (induction xs arbitrary: acc) (simp_all add: mset_place)

lemma mset_array_sort: "mset (array_sort c xs) = mset xs"
  by (simp add: array_sort_def mset_foldl_place)

lemma strict_weak_subset: "strict_weak bf A \<Longrightarrow> B \<subseteq> A \<Longrightarrow> strict_weak bf B"
  unfolding strict_weak_def by blast

lemma strict_weakI:
  assumes "\<And>a b. a \<in> A \<Longrightarrow> b \<in> A \<Longrightarrow> bf a b \<Longrightarrow> \<not> bf b a"
    and "\<And>a b c. a \<in> A \<Longrightarrow> b \<in> A \<Longrightarrow> c \<in> A \<Longrightarrow> bf a c \<Longrightarrow> bf a b \<or> bf b c"
  shows "strict_weak bf A"
  unfolding strict_weak_def using assms by (intro conjI ballI impI)

lemma strict_weak_asym:
  "strict_weak bf A \<Longrightarrow> a \<in> A \<Longrightarrow> b \<in> A \<Longrightarrow> bf a b \<Longrightarrow> \<not> bf b a"
  unfolding strict_weak_def by (elim conjE) (drule (1) bspec, drule (1) bspec, simp)

lemma strict_weak_neg:
  "strict_weak bf A \<Longrightarrow> a \<in> A \<Longrightarrow> b \<in> A \<Longrightarrow> c \<in> A \<Longrightarrow> bf a c \<Longrightarrow> bf a b \<or> bf b c"
  unfolding strict_weak_def
  by (elim conjE) (drule (1) bspec, drule (1) bspec, drule (1) bspec, simp)

lemma sorted_place:
  assumes "strict_weak bf (insert x (set ys))" and "sorted_wrt (\<lambda>a b. \<not> bf b a) ys"
  shows "sorted_wrt (\<lambda>a b. \<not> bf b a) (place bf x ys)"
  using assms
proof (induction ys)
  case Nil
  then show ?case by simp
next
  case (Cons y ys)
  from Cons.prems(1) have sw: "strict_weak bf (insert x (set ys))"
    by (rule strict_weak_subset) auto
  from Cons.prems(2) have later: "\<forall>z \<in> set ys. \<not> bf z y" and tl: "sorted_wrt (\<lambda>a b. \<not> bf b a) ys"
    by simp_all
  show ?case
  proof (cases "bf x y")
    case True
    have "\<not> bf z x" if "z \<in> set (y # ys)" for z
    proof
      assume zx: "bf z x"
      from Cons.prems(1) that have "bf z x \<longrightarrow> bf z y \<or> bf y x"
        unfolding strict_weak_def by auto
      with zx have "bf z y \<or> bf y x" by blast
      moreover from Cons.prems(1) True have "\<not> bf y x"
        unfolding strict_weak_def by auto
      moreover have "\<not> bf z y"
      proof (cases "z = y")
        case True
        with \<open>bf x y\<close> zx Cons.prems(1) show ?thesis unfolding strict_weak_def by auto
      next
        case False
        with that later show ?thesis by simp
      qed
      ultimately show False by blast
    qed
    with True Cons.prems(2) show ?thesis by simp
  next
    case False
    from Cons.IH [OF sw tl] have "sorted_wrt (\<lambda>a b. \<not> bf b a) (place bf x ys)" .
    with False later show ?thesis by (simp add: set_place)
  qed
qed

lemma sorted_foldl_place:
  assumes "strict_weak bf (set acc \<union> set xs)" and "sorted_wrt (\<lambda>a b. \<not> bf b a) acc"
  shows "sorted_wrt (\<lambda>a b. \<not> bf b a) (foldl (\<lambda>acc x. place bf x acc) acc xs)"
  using assms
proof (induction xs arbitrary: acc)
  case Nil
  then show ?case by simp
next
  case (Cons x xs)
  from Cons.prems(1) have "strict_weak bf (insert x (set acc))"
    by (rule strict_weak_subset) auto
  then have s1: "sorted_wrt (\<lambda>a b. \<not> bf b a) (place bf x acc)"
    using Cons.prems(2) by (rule sorted_place)
  have "set (place bf x acc) \<union> set xs = set acc \<union> set (x # xs)"
    by (auto simp add: set_place)
  with Cons.prems(1) have s2: "strict_weak bf (set (place bf x acc) \<union> set xs)" by simp
  from Cons.IH [OF s2 s1] show ?case by simp
qed

lemma sorted_array_sort:
  assumes "strict_weak (\<lambda>a b. comes_before (c a b)) (set xs)"
  shows "sorted_wrt (\<lambda>a b. \<not> comes_before (c b a)) (array_sort c xs)"
  unfolding array_sort_def using assms by (intro sorted_foldl_place) simp_all

lemma val_before_None_left: "\<not> val_before pf fmt dir None y"
  by (simp add: val_before_def compareCellValues_def comes_before_def)

lemma val_before_None_right: "val_before pf fmt dir (Some a) None"
  by (simp add: val_before_def compareCellValues_def comes_before_def)

lemma val_before_numeric:
  assumes "fmt \<in> numeric_formats"
  shows "val_before pf fmt dir (Some a) (Some b) \<longleftrightarrow>
     (if dir = ''asc'' then num_or_zero (toNumber pf a) < num_or_zero (toNumber pf b)
      else num_or_zero (toNumber pf b) < num_or_zero (toNumber pf a))"
  using assms
  by (auto simp add: val_before_def compareCellValues_def comes_before_def numeric_formats_def
      negate_def Let_def)

lemma val_before_date:
  assumes "getTime pf a = Some ta" and "getTime pf b = Some tb"
  shows "val_before pf ''Date'' dir (Some a) (Some b) \<longleftrightarrow>
     (if dir = ''asc'' then ta < tb else tb < ta)"
  using assms
  by (simp add: val_before_def compareCellValues_def comes_before_def negate_def Let_def)

lemma val_before_text:
  assumes "fmt \<notin> numeric_formats" and "fmt \<noteq> ''Date''"
  shows "val_before pf fmt dir (Some a) (Some b) \<longleftrightarrow>
     (if dir = ''asc''
      then localeCompare pf (lowerCase pf (toText pf a)) (lowerCase pf (toText pf b)) < 0
      else 0 < localeCompare pf (lowerCase pf (toText pf a)) (lowerCase pf (toText pf b)))"
  using assms
  by (simp add: val_before_def compareCellValues_def comes_before_def numeric_formats_def
      negate_def Let_def)

lemma strict_weak_key: "strict_weak (\<lambda>a b. (rank a :: real) < rank b) S"
  unfolding strict_weak_def by auto

lemma strict_weak_cong:
  assumes sw: "strict_weak lt S" and eq: "\<And>a b. a \<in> S \<Longrightarrow> b \<in> S \<Longrightarrow> bf a b = lt a b"
  shows "strict_weak bf S"
  unfolding strict_weak_def
proof (intro conjI ballI impI)
  fix a b assume ab: "a \<in> S" "b \<in> S" and "bf a b"
  then have "lt a b" by (simp add: eq)
  with sw ab have "\<not> lt b a" unfolding strict_weak_def by blast
  with ab show "\<not> bf b a" by (simp add: eq)
next
  fix a b c assume abc: "a \<in> S" "b \<in> S" "c \<in> S" and "bf a c"
  then have "lt a c" by (simp add: eq)
  with sw abc have "lt a b \<or> lt b c" unfolding strict_weak_def by blast
  with abc show "bf a b \<or> bf b c" by (simp add: eq)
qed

lemma strict_weak_values:
  assumes "comparable pf fmt S"
  shows "strict_weak (\<lambda>a b. val_before pf fmt dir (Some a) (Some b)) S"
proof -
  consider (is_num) "fmt \<in> numeric_formats" | (is_date) "fmt \<notin> numeric_formats" "fmt = ''Date''"
    | (is_text) "fmt \<notin> numeric_formats" "fmt \<noteq> ''Date''"
    by blast
  then show ?thesis
  proof cases
    case is_num
    show ?thesis
    proof (cases "dir = ''asc''")
      case True
      show ?thesis
        by (rule strict_weak_cong [OF strict_weak_key [of "\<lambda>a. num_or_zero (toNumber pf a)"]])
          (simp add: val_before_numeric [OF is_num] True)
    next
      case False
      show ?thesis
        by (rule strict_weak_cong [OF strict_weak_key [of "\<lambda>a. - num_or_zero (toNumber pf a)"]])
          (simp add: val_before_numeric [OF is_num] False)
    qed
  next
    case is_date
    from assms is_date have valid: "\<forall>v \<in> S. getTime pf v \<noteq> None"
      by (simp add: comparable_def)
    have tm: "getTime pf v = Some (the (getTime pf v))" if "v \<in> S" for v
      using valid that by auto
    show ?thesis
    proof (cases "dir = ''asc''")
      case True
      show ?thesis
        by (rule strict_weak_cong [OF strict_weak_key [of "\<lambda>a. the (getTime pf a)"]])
          (simp add: is_date(2) val_before_date [OF tm tm] True)
    next
      case False
      show ?thesis
        by (rule strict_weak_cong [OF strict_weak_key [of "\<lambda>a. - the (getTime pf a)"]])
          (simp add: is_date(2) val_before_date [OF tm tm] False)
    qed
  next
    case is_text
    let ?t = "\<lambda>a. lowerCase pf (toText pf a)"
    from assms is_text have lc:
      "(\<forall>x y. (localeCompare pf x y < 0) = (0 < localeCompare pf y x)) \<and>
       (\<forall>x y z. localeCompare pf x y \<le> 0 \<and> localeCompare pf y z \<le> 0 \<longrightarrow>
                localeCompare pf x z \<le> 0)"
      unfolding comparable_def by blast
    from lc have anti: "(localeCompare pf x y < 0) = (0 < localeCompare pf y x)" for x y
      by blast
    from lc have trans: "localeCompare pf x y \<le> 0 \<Longrightarrow> localeCompare pf y z \<le> 0 \<Longrightarrow>
          localeCompare pf x z \<le> 0" for x y z
      by blast
    have ge: "\<not> localeCompare pf x y < 0 \<longleftrightarrow> localeCompare pf y x \<le> 0" for x y
      using anti [of x y] by auto
    have asym: "localeCompare pf x y < 0 \<Longrightarrow> \<not> localeCompare pf y x < 0" for x y
      using anti [of x y] by auto
    have neg: "localeCompare pf x y < 0 \<or> localeCompare pf y z < 0" if "localeCompare pf x z < 0"
      for x y z
    proof (rule ccontr)
      assume "\<not> (localeCompare pf x y < 0 \<or> localeCompare pf y z < 0)"
      then have "localeCompare pf y x \<le> 0" "localeCompare pf z y \<le> 0" using ge by blast+
      then have "localeCompare pf z x \<le> 0" using trans by blast
      then have "\<not> localeCompare pf x z < 0" using ge by blast
      with that show False by blast
    qed
    have asc: "strict_weak (\<lambda>a b. localeCompare pf (?t a) (?t b) < 0) S"
      unfolding strict_weak_def
    proof (intro conjI ballI impI)
      fix a b assume "localeCompare pf (?t a) (?t b) < 0"
      then show "\<not> localeCompare pf (?t b) (?t a) < 0" by (rule asym)
    next
      fix a b c assume "localeCompare pf (?t a) (?t c) < 0"
      then show "localeCompare pf (?t a) (?t b) < 0 \<or> localeCompare pf (?t b) (?t c) < 0"
        by (rule neg)
    qed
    have desc: "strict_weak (\<lambda>a b. 0 < localeCompare pf (?t a) (?t b)) S"
      unfolding strict_weak_def
    proof (intro conjI ballI impI)
      fix a b assume "0 < localeCompare pf (?t a) (?t b)"
      then have "localeCompare pf (?t b) (?t a) < 0" by (simp add: anti)
      then have "\<not> localeCompare pf (?t a) (?t b) < 0" by (rule asym)
      then show "\<not> 0 < localeCompare pf (?t b) (?t a)" by (simp add: anti)
    next
      fix a b c assume "0 < localeCompare pf (?t a) (?t c)"
      then have "localeCompare pf (?t c) (?t a) < 0" by (simp add: anti)
      then have "localeCompare pf (?t c) (?t b) < 0 \<or> localeCompare pf (?t b) (?t a) < 0"
        by (rule neg)
      then show "0 < localeCompare pf (?t a) (?t b) \<or> 0 < localeCompare pf (?t b) (?t c)"
        by (auto simp add: anti)
    qed
    show ?thesis
    proof (cases "dir = ''asc''")
      case True
      show ?thesis
        by (rule strict_weak_cong [OF asc]) (simp add: val_before_text [OF is_text] True)
    next
      case False
      show ?thesis
        by (rule strict_weak_cong [OF desc]) (simp add: val_before_text [OF is_text] False)
    qed
  qed
qed

lemma strict_weak_option:
  assumes sw: "strict_weak (\<lambda>a b. val_before pf fmt dir (Some a) (Some b)) S"
  shows "strict_weak (val_before pf fmt dir) (insert None (Some ` S))"
proof (rule strict_weakI)
  fix x y assume mem: "x \<in> insert None (Some ` S)" "y \<in> insert None (Some ` S)"
    and xy: "val_before pf fmt dir x y"
  from xy obtain u where x: "x = Some u" by (cases x) (simp_all add: val_before_None_left)
  show "\<not> val_before pf fmt dir y x"
  proof (cases y)
    case None
    then show ?thesis by (simp add: val_before_None_left)
  next
    case (Some v)
    from mem x Some have "u \<in> S" "v \<in> S" by auto
    from strict_weak_asym [OF sw this] xy show ?thesis unfolding x Some by simp
  qed
next
  fix x y z
  assume mem: "x \<in> insert None (Some ` S)" "y \<in> insert None (Some ` S)"
    "z \<in> insert None (Some ` S)"
    and xz: "val_before pf fmt dir x z"
  from xz obtain u where x: "x = Some u" by (cases x) (simp_all add: val_before_None_left)
  show "val_before pf fmt dir x y \<or> val_before pf fmt dir y z"
  proof (cases y)
    case None
    then show ?thesis by (simp add: x val_before_None_right)
  next
    case ys: (Some v)
    show ?thesis
    proof (cases z)
      case None
      then show ?thesis by (simp add: ys val_before_None_right)
    next
      case (Some w)
      from mem x ys Some have "u \<in> S" "v \<in> S" "w \<in> S" by auto
      from strict_weak_neg [OF sw this] xz show ?thesis unfolding x ys Some by simp
    qed
  qed
qed

lemma strict_weak_image:
  assumes sw: "strict_weak P (f ` A)"
  shows "strict_weak (\<lambda>a b. P (f a) (f b)) A"
proof (rule strict_weakI)
  fix a b assume "a \<in> A" "b \<in> A" and ab: "P (f a) (f b)"
  then have "f a \<in> f ` A" "f b \<in> f ` A" by simp_all
  from strict_weak_asym [OF sw this ab] show "\<not> P (f b) (f a)" .
next
  fix a b c assume "a \<in> A" "b \<in> A" "c \<in> A" and ac: "P (f a) (f c)"
  then have "f a \<in> f ` A" "f b \<in> f ` A" "f c \<in> f ` A" by simp_all
  from strict_weak_neg [OF sw this ac] show "P (f a) (f b) \<or> P (f b) (f c)" .
qed

lemma strict_weak_rows:
  assumes "comparable pf fmt {v. \<exists>r \<in> set rs. getCellValue r k = Some v}"
  shows "strict_weak (\<lambda>a b. comes_before (row_compare pf k dir fmt a b)) (set rs)"
proof -
  let ?S = "{v. \<exists>r \<in> set rs. getCellValue r k = Some v}"
  have "strict_weak (val_before pf fmt dir) (insert None (Some ` ?S))"
    by (rule strict_weak_option [OF strict_weak_values [OF assms]])
  moreover have "(\<lambda>r. getCellValue r k) ` set rs \<subseteq> insert None (Some ` ?S)"
  proof
    fix x assume "x \<in> (\<lambda>r. getCellValue r k) ` set rs"
    then obtain r where "r \<in> set rs" "x = getCellValue r k" by blast
    then show "x \<in> insert None (Some ` ?S)" by (cases x) force+
  qed
  ultimately have "strict_weak (val_before pf fmt dir) ((\<lambda>r. getCellValue r k) ` set rs)"
    by (rule strict_weak_subset)
  then have "strict_weak (\<lambda>a b. val_before pf fmt dir (getCellValue a k) (getCellValue b k)) (set rs)"
    by (rule strict_weak_image)
  then show ?thesis by (simp add: val_before_def row_compare_def)
qed

lemma not_before_value_le:
  assumes "comparable pf fmt S" and "a \<in> S" and "b \<in> S"
    and "\<not> val_before pf fmt dir (Some b) (Some a)"
  shows "if dir = ''asc'' then value_le pf fmt a b else value_le pf fmt b a"
proof -
  consider (is_num) "fmt \<in> numeric_formats" | (is_date) "fmt \<notin> numeric_formats" "fmt = ''Date''"
    | (is_text) "fmt \<notin> numeric_formats" "fmt \<noteq> ''Date''"
    by blast
  then show ?thesis
  proof cases
    case is_num
    with assms(4) show ?thesis
      by (auto simp add: val_before_numeric value_le_def split: if_splits)
  next
    case is_date
    from assms is_date have "getTime pf a \<noteq> None" "getTime pf b \<noteq> None"
      by (simp_all add: comparable_def)
    then obtain ta tb where t: "getTime pf a = Some ta" "getTime pf b = Some tb"
      by auto
    from assms(4) show ?thesis
      unfolding is_date(2) val_before_date [OF t(2) t(1)]
      using is_date(1) by (auto simp add: value_le_def t is_date(2) split: if_splits)
  next
    case is_text
    from assms is_text have "\<forall>x y. (localeCompare pf x y < 0) = (0 < localeCompare pf y x)"
      unfolding comparable_def by blast
    then have anti: "(localeCompare pf x y < 0) = (0 < localeCompare pf y x)" for x y
      by blast
    from assms(4) show ?thesis
      unfolding val_before_text [OF is_text]
      using is_text anti [of "lowerCase pf (toText pf b)" "lowerCase pf (toText pf a)"]
      by (auto simp add: value_le_def split: if_splits)
  qed
qed

lemma sortRows_effect:
  assumes "a < next_addr s"
  shows "fst (sortRows pf s a k d f) \<noteq> a"
    and "heap (snd (sortRows pf s a k d f)) a = heap s a"
    and "heap (snd (sortRows pf s a k d f)) (fst (sortRows pf s a k d f)) =
           array_sort (row_compare pf k d f) (heap s a)"
  using assms by (simp_all add: sortRows_def alloc_def)

lemma updatePagination_keeps:
  "heap (updatePagination s) = heap s" "filteredRows (updatePagination s) = filteredRows s"
  "rows (updatePagination s) = rows s"
  by (simp_all add: updatePagination_def Let_def)

lemma applyFilter_sorted:
  assumes "enableColumnSorting s" and "sortColumn s = Some k" and "k \<noteq> []"
    and "find (\<lambda>col. Some (col_key col) = sortColumn s) (columns s) = Some col"
    and "rows s < next_addr s"
  shows "heap (applyFilter pf s) (filteredRows (applyFilter pf s)) =
           array_sort (row_compare pf k (sortDirection s) (formatType col)) (visible_rows s)"
    and "heap (applyFilter pf s) (rows s) = heap s (rows s)"
    and "rows (applyFilter pf s) = rows s"
  using assms
  by (simp_all add: applyFilter_def updatePagination_keeps sortRows_def alloc_def visible_rows_def
      truthy_str_def Let_def)

text \<open>
  C5. With column sorting enabled and a sort column selected among the columns, the
  array that \<open>applyFilter\<close> leaves in \<open>filteredRows\<close> holds exactly the rows that pass
  the filter, all of them and not a page; of any two of its rows with a value the
  earlier one's value is not the larger for an ascending sort and not the smaller
  for a descending sort, by number, by date or by lower-cased text according to the
  column's format (the dates of a Date column being valid, and \<open>localeCompare\<close> a
  collation for a text column); and no row without a value stands before a row with
  one, in either direction. The
  array in \<open>rows\<close> is left as it was, and \<open>sortRows\<close> returns an array other than its
  input, whose content it does not change.
\<close>

theorem sorting_covers_filtered_rows:
  assumes "enableColumnSorting s" and "sortColumn s = Some k" and "k \<noteq> []"
    and "find (\<lambda>col. Some (col_key col) = sortColumn s) (columns s) = Some col"
    and "rows s < next_addr s"
    and "comparable pf (formatType col) {v. \<exists>r \<in> set (visible_rows s). getCellValue r k = Some v}"
  shows "mset (heap (applyFilter pf s) (filteredRows (applyFilter pf s))) = mset (visible_rows s) \<and>
     (\<forall>i j. i < j \<and> j < length (heap (applyFilter pf s) (filteredRows (applyFilter pf s))) \<longrightarrow>
        (case getCellValue (heap (applyFilter pf s) (filteredRows (applyFilter pf s)) ! i) k of
           None \<Rightarrow> getCellValue (heap (applyFilter pf s) (filteredRows (applyFilter pf s)) ! j) k = None
         | Some a \<Rightarrow>
             (case getCellValue (heap (applyFilter pf s) (filteredRows (applyFilter pf s)) ! j) k of
                None \<Rightarrow> True
              | Some b \<Rightarrow>
                  if sortDirection s = ''asc'' then value_le pf (formatType col) a b
                  else value_le pf (formatType col) b a))) \<and>
     rows (applyFilter pf s) = rows s \<and>
     heap (applyFilter pf s) (rows s) = heap s (rows s) \<and>
     (\<forall>a d f. a < next_addr s \<longrightarrow>
        fst (sortRows pf s a k d f) \<noteq> a \<and>
        heap (snd (sortRows pf s a k d f)) a = heap s a \<and>
        heap (snd (sortRows pf s a k d f)) (fst (sortRows pf s a k d f)) =
          array_sort (row_compare pf k d f) (heap s a))"
proof -
  let ?fr = "heap (applyFilter pf s) (filteredRows (applyFilter pf s))"
  let ?dir = "sortDirection s" and ?fmt = "formatType col"
  let ?S = "{v. \<exists>r \<in> set (visible_rows s). getCellValue r k = Some v}"
  have fr: "?fr = array_sort (row_compare pf k ?dir ?fmt) (visible_rows s)"
    by (rule applyFilter_sorted(1) [OF assms(1-5)])
  have perm: "mset ?fr = mset (visible_rows s)"
    unfolding fr by (rule mset_array_sort)
  then have set_fr: "set ?fr = set (visible_rows s)"
    by (rule mset_eq_setD)
  have "sorted_wrt (\<lambda>a b. \<not> comes_before (row_compare pf k ?dir ?fmt b a)) ?fr"
    unfolding fr by (rule sorted_array_sort [OF strict_weak_rows [OF assms(6)]])
  then have ord: "\<not> val_before pf ?fmt ?dir (getCellValue (?fr ! j) k) (getCellValue (?fr ! i) k)"
    if "i < j" "j < length ?fr" for i j
    using that by (simp add: sorted_wrt_iff_nth_less val_before_def row_compare_def)
  have order: "case getCellValue (?fr ! i) k of
           None \<Rightarrow> getCellValue (?fr ! j) k = None
         | Some a \<Rightarrow>
             (case getCellValue (?fr ! j) k of
                None \<Rightarrow> True
              | Some b \<Rightarrow>
                  if ?dir = ''asc'' then value_le pf ?fmt a b else value_le pf ?fmt b a)"
    if ij: "i < j" "j < length ?fr" for i j
  proof (cases "getCellValue (?fr ! i) k")
    case None
    with ord [OF ij] have "\<not> val_before pf ?fmt ?dir (getCellValue (?fr ! j) k) None" by simp
    then have "getCellValue (?fr ! j) k = None"
      by (cases "getCellValue (?fr ! j) k") (simp_all add: val_before_None_right)
    with None show ?thesis by simp
  next
    case a: (Some a)
    show ?thesis
    proof (cases "getCellValue (?fr ! j) k")
      case None
      with a show ?thesis by simp
    next
      case b: (Some b)
      from ij have "?fr ! i \<in> set ?fr" "?fr ! j \<in> set ?fr" by simp_all
      with set_fr a b have mem: "a \<in> ?S" "b \<in> ?S" by auto
      from ord [OF ij] a b have "\<not> val_before pf ?fmt ?dir (Some b) (Some a)" by simp
      from not_before_value_le [OF assms(6) mem this] a b show ?thesis by simp
    qed
  qed
  have new: "\<forall>a d f. a < next_addr s \<longrightarrow>
        fst (sortRows pf s a k d f) \<noteq> a \<and>
        heap (snd (sortRows pf s a k d f)) a = heap s a \<and>
        heap (snd (sortRows pf s a k d f)) (fst (sortRows pf s a k d f)) =
          array_sort (row_compare pf k d f) (heap s a)"
    using sortRows_effect by blast
  from perm order applyFilter_sorted(2,3) [OF assms(1-5)] new show ?thesis by blast
qed

theorem sorting_covers_filtered_rows_witness:
  "enableColumnSorting sort_demo \<and> sortColumn sort_demo = Some ''amount'' \<and>
   rows sort_demo < next_addr sort_demo \<and>
   heap (applyFilter int_platform sort_demo) (filteredRows (applyFilter int_platform sort_demo)) =
     [amount_row ''Case'' (Some 30), amount_row ''Case'' (Some 20),
      amount_row ''Case'' (Some 10), amount_row ''Case'' None] \<and>
   mset (heap (applyFilter int_platform sort_demo) (filteredRows (applyFilter int_platform sort_demo))) =
     mset (visible_rows sort_demo) \<and>
   heap (applyFilter int_platform sort_demo) (rows sort_demo) = five_rows \<and>
   fst (sortRows int_platform sort_demo 0 ''amount'' ''asc'' ''Currency'') \<noteq> 0"
proof -
  let ?col = "\<lparr>col_key = ''amount'', formatType = ''Currency''\<rparr>"
  have h1: "enableColumnSorting sort_demo" by (simp add: sort_demo_def)
  have h2: "sortColumn sort_demo = Some ''amount''" by (simp add: sort_demo_def)
  have h3: "''amount'' \<noteq> []" by simp
  have h4: "find (\<lambda>col. Some (col_key col) = sortColumn sort_demo) (columns sort_demo) = Some ?col"
    by (simp add: sort_demo_def)
  have h5: "rows sort_demo < next_addr sort_demo" by (simp add: sort_demo_def)
  have h6: "comparable int_platform (formatType ?col)
      {v. \<exists>r \<in> set (visible_rows sort_demo). getCellValue r ''amount'' = Some v}"
    by (simp add: comparable_def numeric_formats_def)
  note r = sorting_covers_filtered_rows [OF h1 h2 h3 h4 h5 h6]
  have vis: "visible_rows sort_demo =
      [amount_row ''Case'' (Some 30), amount_row ''Case'' None,
       amount_row ''Case'' (Some 10), amount_row ''Case'' (Some 20)]"
    by (simp add: visible_rows_def sort_demo_def five_rows_def truthy_str_def amount_row_def)
  have srt: "array_sort (row_compare int_platform ''amount'' ''desc'' ''Currency'')
       [amount_row ''Case'' (Some 30), amount_row ''Case'' None,
        amount_row ''Case'' (Some 10), amount_row ''Case'' (Some 20)] =
      [amount_row ''Case'' (Some 30), amount_row ''Case'' (Some 20),
       amount_row ''Case'' (Some 10), amount_row ''Case'' None]"
    by (simp add: array_sort_def row_compare_def compareCellValues_def getCellValue_def
        amount_row_def int_platform_def comes_before_def negate_def num_or_zero_def Let_def)
  have d: "sortDirection sort_demo = ''desc''" by (simp add: sort_demo_def)
  have a: "heap (applyFilter int_platform sort_demo) (filteredRows (applyFilter int_platform sort_demo)) =
      [amount_row ''Case'' (Some 30), amount_row ''Case'' (Some 20),
       amount_row ''Case'' (Some 10), amount_row ''Case'' None]"
    using applyFilter_sorted(1) [OF h1 h2 h3 h4 h5, of int_platform] by (simp add: vis d srt)
  from r have b: "mset (heap (applyFilter int_platform sort_demo)
        (filteredRows (applyFilter int_platform sort_demo))) = mset (visible_rows sort_demo)"
    by blast
  from r have "heap (applyFilter int_platform sort_demo) (rows sort_demo) =
      heap sort_demo (rows sort_demo)"
    by blast
  then have c: "heap (applyFilter int_platform sort_demo) (rows sort_demo) = five_rows"
    by (simp add: sort_demo_def)
  from r h5 have e: "fst (sortRows int_platform sort_demo 0 ''amount'' ''asc'' ''Currency'') \<noteq> 0"
    by (simp add: sort_demo_def)
  from h1 h2 h5 a b c e show ?thesis by blast
qed






section \<open>Properties of saving and loading\<close>

lemma restore_conditions_inputs:
  "map cond_inputs (fst (restore_conditions n cs)) = map cond_inputs cs \<and>
   map fieldLabel (fst (restore_conditions n cs)) = map fieldLabel cs"
  by (induction cs arbitrary: n) (simp_all add: cond_inputs_def case_prod_beta)

lemma serialized_conditions: "cfg_whereConditions (serializeQueryConfig s) = whereConditions s"
proof -
  have "(\<lambda>c. \<lparr>cond_id = cond_id c, fieldApiName = fieldApiName c, fieldLabel = fieldLabel c,
                    fieldType = fieldType c, operator = operator c, cvalue = cvalue c,
                    conjunction = conjunction c\<rparr>) = (\<lambda>c :: condition. c)"
    by (rule ext) simp
  then show ?thesis by (simp add: serializeQueryConfig_def)
qed

text \<open>
  C10, as amended. For a state with an object selected, loading what was saved
  restores the object name, the selected fields and field, type, operator, value,
  conjunction and label of every condition as they were; the object label, the
  aggregate function and field and the owner filter as they were unless they were the
  empty string, which becomes \<open>null\<close>; the query type unless it was empty, which
  becomes \<open>List\<close>; and the query limit unless it was zero, which becomes \<open>null\<close>.
\<close>

theorem round_trip_modulo_falsy:
  assumes "truthy_str (selectedObjectApiName s)"
  shows "selectedObjectApiName (restored loaded s target) = selectedObjectApiName s \<and>
     selectedObjectLabel (restored loaded s target) = opt_or_null (selectedObjectLabel s) \<and>
     queryType (restored loaded s target) = (if queryType s = [] then ''List'' else queryType s) \<and>
     selectedFieldApiNames (restored loaded s target) = selectedFieldApiNames s \<and>
     aggregateFunction (restored loaded s target) = opt_or_null (aggregateFunction s) \<and>
     aggregateFieldApiName (restored loaded s target) = opt_or_null (aggregateFieldApiName s) \<and>
     map cond_inputs (whereConditions (restored loaded s target)) =
       map cond_inputs (whereConditions s) \<and>
     map fieldLabel (whereConditions (restored loaded s target)) = map fieldLabel (whereConditions s) \<and>
     activeOwnerFilter (restored loaded s target) = opt_or_null (activeOwnerFilter s) \<and>
     queryLimit (restored loaded s target) = num_or_null (queryLimit s)"
proof -
  let ?r = "restore_conditions (conditionIdCounter target) (whereConditions s)"
  have w: "whereConditions (restored loaded s target) = fst ?r"
    by (simp add: restored_def deserializeQueryConfig_def serialized_conditions
        loadFieldsForObject_def Let_def case_prod_beta)
  have c: "map cond_inputs (whereConditions (restored loaded s target)) =
       map cond_inputs (whereConditions s)"
    "map fieldLabel (whereConditions (restored loaded s target)) = map fieldLabel (whereConditions s)"
    unfolding w by (simp_all add: restore_conditions_inputs)
  have f: "selectedObjectApiName (restored loaded s target) = selectedObjectApiName s"
    "selectedObjectLabel (restored loaded s target) = opt_or_null (selectedObjectLabel s)"
    "queryType (restored loaded s target) = (if queryType s = [] then ''List'' else queryType s)"
    "selectedFieldApiNames (restored loaded s target) = selectedFieldApiNames s"
    "aggregateFunction (restored loaded s target) = opt_or_null (aggregateFunction s)"
    "aggregateFieldApiName (restored loaded s target) = opt_or_null (aggregateFieldApiName s)"
    "activeOwnerFilter (restored loaded s target) = opt_or_null (activeOwnerFilter s)"
    "queryLimit (restored loaded s target) = num_or_null (queryLimit s)"
    using assms
    by (simp_all add: restored_def deserializeQueryConfig_def serializeQueryConfig_def
        loadFieldsForObject_def opt_or_null_def str_or_def Let_def case_prod_beta)
  from c f show ?thesis by blast
qed

theorem round_trip_modulo_falsy_witness:
  "truthy_str (selectedObjectApiName acme_state) \<and>
   selectedObjectApiName (restored True acme_state zero_limit_state) = Some ''Account'' \<and>
   selectedFieldApiNames (restored True acme_state zero_limit_state) = [''Id'', ''Name''] \<and>
   map cond_inputs (whereConditions (restored True acme_state zero_limit_state)) =
     [(''Name'', ''STRING'', ''equals'', VStr ''Acme'', ''AND'')] \<and>
   queryLimit (restored True acme_state zero_limit_state) = Some 10"
proof -
  have h: "truthy_str (selectedObjectApiName acme_state)" by code_simp
  have v: "selectedObjectApiName acme_state = Some ''Account''"
    "selectedFieldApiNames acme_state = [''Id'', ''Name'']"
    "map cond_inputs (whereConditions acme_state) =
      [(''Name'', ''STRING'', ''equals'', VStr ''Acme'', ''AND'')]"
    "num_or_null (queryLimit acme_state) = Some 10"
    by (simp_all add: acme_state_def text_cond_def cond_inputs_def num_or_null_def truthy_num_def)
  from round_trip_modulo_falsy [OF h, of True zero_limit_state] h v show ?thesis by simp
qed

text \<open>C10 as stated fails for a query limit of zero: it is restored as \<open>null\<close>.\<close>

theorem zero_limit_not_restored:
  "truthy_str (selectedObjectApiName zero_limit_state) \<and>
   queryLimit zero_limit_state = Some 0 \<and>
   queryLimit (restored True zero_limit_state zero_limit_state) = None \<and>
   queryLimit (restored True zero_limit_state zero_limit_state) \<noteq> queryLimit zero_limit_state"
  by (simp add: restored_def deserializeQueryConfig_def serializeQueryConfig_def
      loadFieldsForObject_def zero_limit_state_def num_or_null_def truthy_num_def truthy_str_def
      opt_or_null_def str_or_def Let_def case_prod_beta)

end
